theory Spec2Isabelle
  imports Complex_Main
begin

section \<open>The from-scratch k-means engine of kmeans.py\<close>

text \<open>
  The embedding follows \<^verbatim>\<open>src/kmeans.py\<close> (class \<^verbatim>\<open>KMeans\<close>) method by method.
  The numpy calls the class makes are written out as list functions with numpy's shapes,
  broadcasting and exceptions. Array elements are IEEE doubles in the source; here an
  element is an exact real number or not-a-number: rounding and overflow are not modelled,
  the not-a-number that the mean of an empty selection produces is. The properties that
  depend on how doubles round are stated over the same engine with the arithmetic as a
  parameter (below).
\<close>

subsection \<open>Array elements\<close>

datatype float64 = Fin real | NaN

fun isnan :: "float64 \<Rightarrow> bool" where
  "isnan NaN = True"
| "isnan (Fin x) = False"

fun fsub :: "float64 \<Rightarrow> float64 \<Rightarrow> float64" where
  "fsub (Fin a) (Fin b) = Fin (a - b)"
| "fsub _ _ = NaN"

fun fadd :: "float64 \<Rightarrow> float64 \<Rightarrow> float64" where
  "fadd (Fin a) (Fin b) = Fin (a + b)"
| "fadd _ _ = NaN"

text \<open>\<^verbatim>\<open>x ** 2\<close>\<close>

fun fsquare :: "float64 \<Rightarrow> float64" where
  "fsquare (Fin a) = Fin (a ^ 2)"
| "fsquare NaN = NaN"

text \<open>\<^verbatim>\<open>np.sqrt\<close>; its argument is a sum of squares, so never negative.\<close>

fun fsqrt :: "float64 \<Rightarrow> float64" where
  "fsqrt (Fin a) = Fin (sqrt a)"
| "fsqrt NaN = NaN"

text \<open>The comparison \<^verbatim>\<open>a >= b\<close> of two doubles: false as soon as one is not-a-number.\<close>

fun fge :: "float64 \<Rightarrow> float64 \<Rightarrow> bool" where
  "fge (Fin a) (Fin b) = (b \<le> a)"
| "fge _ _ = False"

text \<open>\<^verbatim>\<open>.sum(axis=...)\<close> over one axis: the sum starts from 0.0.\<close>

definition fsum :: "float64 list \<Rightarrow> float64" where
  "fsum xs = foldr fadd xs (Fin 0)"

text \<open>
  The division of a column sum by the number of rows in \<^verbatim>\<open>.mean(axis=0)\<close>. Over
  an empty selection the sum is 0.0 and the count 0: numpy warns and yields nan.
\<close>

fun fdiv_count :: "float64 \<Rightarrow> nat \<Rightarrow> float64" where
  "fdiv_count s 0 = NaN"
| "fdiv_count NaN (Suc n) = NaN"
| "fdiv_count (Fin a) (Suc n) = Fin (a / real (Suc n))"

text \<open>
  One element of \<^verbatim>\<open>np.isclose(a, b)\<close> with the defaults \<^verbatim>\<open>rtol=1e-05\<close>,
  \<^verbatim>\<open>atol=1e-08\<close>, \<^verbatim>\<open>equal_nan=False\<close>:
  \<^verbatim>\<open>abs(a - b) <= atol + rtol * abs(b)\<close>, false on nan.
\<close>

fun isclose :: "float64 \<Rightarrow> float64 \<Rightarrow> bool" where
  "isclose (Fin a) (Fin b) = (\<bar>a - b\<bar> \<le> 1 / 10 ^ 8 + (1 / 10 ^ 5) * \<bar>b\<bar>)"
| "isclose _ _ = False"

subsection \<open>Two-dimensional arrays\<close>

text \<open>
  An array of shape \<open>(N, D)\<close>: its rows and its second dimension, which an array with no
  row still has. \<open>matrix\<close> says that every row has \<open>D\<close> entries, as numpy guarantees.
\<close>

record ndarray =
  ncols :: nat
  rows :: "float64 list list"

definition nrows :: "ndarray \<Rightarrow> nat" where
  "nrows X = length (rows X)"

definition matrix :: "ndarray \<Rightarrow> bool" where
  "matrix X = list_all (\<lambda>r. length r = ncols X) (rows X)"

definition finite_array :: "ndarray \<Rightarrow> bool" where
  "finite_array X = list_all (list_all (\<lambda>v. \<not> isnan v)) (rows X)"

datatype error = ValueError | TypeError | IndexError

text \<open>\<^verbatim>\<open>X[indices]\<close> with an integer index array: the rows at those indices.\<close>

definition take_rows :: "ndarray \<Rightarrow> nat list \<Rightarrow> error + ndarray" where
  "take_rows X indices =
     (if list_all (\<lambda>i. i < nrows X) indices
      then Inr \<lparr>ncols = ncols X, rows = map (\<lambda>i. rows X ! i) indices\<rparr>
      else Inl IndexError)"

text \<open>
  \<^verbatim>\<open>np.argmin\<close> over one row of doubles, as numpy scans it: the first element is the
  running minimum; a later element replaces it unless it is \<open>\<ge>\<close> the minimum (the negated
  test lets nan through), and the scan stops at a nan. The result is the first index of
  the least element, or of the first nan.
\<close>

fun argmin_scan :: "float64 \<Rightarrow> nat \<Rightarrow> nat \<Rightarrow> float64 list \<Rightarrow> nat" where
  "argmin_scan mp min_ind i [] = min_ind"
| "argmin_scan mp min_ind i (v # vs) =
     (if isnan mp then min_ind
      else if \<not> fge v mp then argmin_scan v i (Suc i) vs
      else argmin_scan mp min_ind (Suc i) vs)"

fun argmin :: "float64 list \<Rightarrow> error + nat" where
  "argmin [] = Inl ValueError"
| "argmin (v # vs) = Inr (argmin_scan v 0 1 vs)"

text \<open>
  \<^verbatim>\<open>np.allclose(a, b)\<close> on two arrays of one shape (in \<^verbatim>\<open>fit\<close> both are \<open>(K, D)\<close>).
\<close>

definition allclose :: "ndarray \<Rightarrow> ndarray \<Rightarrow> bool" where
  "allclose a b = list_all2 (list_all2 isclose) (rows a) (rows b)"

subsection \<open>The global random generator\<close>

text \<open>
  \<^verbatim>\<open>np.random\<close> is numpy's process-wide generator; its algorithm is outside the
  repository, so the two operations \<^verbatim>\<open>fit\<close> uses are parameters: the state that
  \<^verbatim>\<open>np.random.seed(s)\<close> installs, and \<^verbatim>\<open>permutation(n)\<close>, which returns a
  shuffle of \<open>0..n-1\<close> and the advanced state. \<open>valid_source\<close> is numpy's contract
  for the second.
\<close>

record 'g np_random =
  rs_seed :: "int \<Rightarrow> 'g"
  rs_permutation :: "'g \<Rightarrow> nat \<Rightarrow> nat list \<times> 'g"

definition valid_source :: "'g np_random \<Rightarrow> bool" where
  "valid_source rs =
     (\<forall>g n. distinct (fst (rs_permutation rs g n)) \<and> set (fst (rs_permutation rs g n)) = {..<n})"

text \<open>\<^verbatim>\<open>np.random.seed(s)\<close>: a seed outside \<open>0..2**32-1\<close> raises ValueError.\<close>

definition seed :: "'g np_random \<Rightarrow> int \<Rightarrow> 'g \<Rightarrow> (error + unit) \<times> 'g" where
  "seed rs s g = (if 0 \<le> s \<and> s < 2 ^ 32 then (Inr (), rs_seed rs s) else (Inl ValueError, g))"

text \<open>
  \<^verbatim>\<open>np.random.choice(pop_size, size, replace=False)\<close>: numpy's checks, then the first
  \<open>size\<close> entries of a permutation of the population.
\<close>

definition choice :: "'g np_random \<Rightarrow> nat \<Rightarrow> int \<Rightarrow> 'g \<Rightarrow> (error + nat list) \<times> 'g" where
  "choice rs pop_size sz g =
     (if pop_size = 0 \<and> sz \<noteq> 0 then (Inl ValueError, g)
      else if sz > int pop_size then (Inl ValueError, g)
      else if sz < 0 then (Inl ValueError, g)
      else (Inr (take (nat sz) (fst (rs_permutation rs g pop_size))),
            snd (rs_permutation rs g pop_size)))"

subsection \<open>The class KMeans\<close>

record KMeans =
  n_clusters :: int
  max_iter :: int
  random_state :: "int option"
  centroids :: "ndarray option"
  labels :: "nat list option"

text \<open>
  \<^verbatim>\<open>__init__\<close>: the configuration as passed (the source's defaults are 3 clusters,
  300 iterations and no seed); centroids and labels start as None.
\<close>

definition init :: "int \<Rightarrow> int \<Rightarrow> int option \<Rightarrow> KMeans" where
  "init k m s = \<lparr>n_clusters = k, max_iter = m, random_state = s, centroids = None, labels = None\<rparr>"

text \<open>
  Broadcasting of the last axis in \<^verbatim>\<open>X[:, np.newaxis] - self.centroids\<close>: two widths
  are compatible when they are equal or one of them is 1, and the row of width 1 is
  repeated.
\<close>

definition broadcastable :: "nat \<Rightarrow> nat \<Rightarrow> bool" where
  "broadcastable dx dc = (dx = dc \<or> dx = 1 \<or> dc = 1)"

definition bcast :: "float64 list \<Rightarrow> nat \<Rightarrow> float64 list" where
  "bcast v d = (if length v = 1 \<and> d \<noteq> 1 then replicate d (hd v) else v)"

text \<open>One entry of \<^verbatim>\<open>distances\<close>: \<^verbatim>\<open>np.sqrt(((x - c) ** 2).sum())\<close>.\<close>

definition distance :: "float64 list \<Rightarrow> float64 list \<Rightarrow> float64" where
  "distance x c =
     fsqrt (fsum (map fsquare (map2 fsub (bcast x (length c)) (bcast c (length x)))))"

text \<open>\<^verbatim>\<open>np.argmin(distances, axis=1)\<close>: one arg-min per point, over the centroids.\<close>

fun argmin_rows :: "float64 list list \<Rightarrow> error + nat list" where
  "argmin_rows [] = Inr []"
| "argmin_rows (d # ds) =
     (case argmin d of
        Inl err \<Rightarrow> Inl err
      | Inr l \<Rightarrow> (case argmin_rows ds of Inl err \<Rightarrow> Inl err | Inr ls \<Rightarrow> Inr (l # ls)))"

text \<open>
  \<^verbatim>\<open>_assign_labels\<close>. While \<^verbatim>\<open>self.centroids\<close> is still None the subtraction runs
  numpy's object loop, which raises TypeError at the first element and does nothing on an
  array without elements. An arg-min over no centroid raises ValueError, whatever the
  number of points.
\<close>

definition assign_labels :: "KMeans \<Rightarrow> ndarray \<Rightarrow> error + nat list" where
  "assign_labels self X =
     (case centroids self of
        None \<Rightarrow> (if nrows X = 0 then Inr [] else Inl TypeError)
      | Some C \<Rightarrow>
          if \<not> broadcastable (ncols X) (ncols C) then Inl ValueError
          else if nrows C = 0 then Inl ValueError
          else argmin_rows (map (\<lambda>x. map (\<lambda>c. distance x c) (rows C)) (rows X)))"

text \<open>\<^verbatim>\<open>X[self.labels == i]\<close>: the rows of \<open>X\<close> whose label is \<open>i\<close>.\<close>

definition members :: "nat list \<Rightarrow> ndarray \<Rightarrow> nat \<Rightarrow> float64 list list" where
  "members ls X i = map snd (filter (\<lambda>(l, x). l = i) (zip ls (rows X)))"

text \<open>\<^verbatim>\<open>.mean(axis=0)\<close> of a selection of rows of width \<open>d\<close>: one mean per column.\<close>

definition mean_axis0 :: "nat \<Rightarrow> float64 list list \<Rightarrow> float64 list" where
  "mean_axis0 d rs = map (\<lambda>j. fdiv_count (fsum (map (\<lambda>r. r ! j) rs)) (length rs)) [0..<d]"

text \<open>
  \<^verbatim>\<open>_update_centroids\<close>. It is private and \<^verbatim>\<open>fit\<close> calls it right after
  assigning \<^verbatim>\<open>self.labels\<close>; \<open>ls\<close> is that array.
\<close>

definition update_centroids :: "KMeans \<Rightarrow> nat list \<Rightarrow> ndarray \<Rightarrow> ndarray" where
  "update_centroids self ls X =
     \<lparr>ncols = ncols X,
      rows = map (\<lambda>i. mean_axis0 (ncols X) (members ls X i)) [0..<nat (n_clusters self)]\<rparr>"

text \<open>
  The loop of \<^verbatim>\<open>fit\<close>, \<^verbatim>\<open>for _ in range(self.max_iter)\<close>, with the number of
  iterations left as its first argument. An exception leaves the engine as it was when
  it was raised. (The branch for centroids that are None is not reached from
  \<^verbatim>\<open>fit\<close>, which assigns the centroids before the loop.)
\<close>

fun fit_loop :: "nat \<Rightarrow> KMeans \<Rightarrow> ndarray \<Rightarrow> (error + unit) \<times> KMeans" where
  "fit_loop 0 self X = (Inr (), self)"
| "fit_loop (Suc m) self X =
     (case assign_labels self X of
        Inl err \<Rightarrow> (Inl err, self)
      | Inr ls \<Rightarrow>
          (case centroids self of
             None \<Rightarrow> (Inl TypeError, self\<lparr>labels := Some ls\<rparr>)
           | Some C \<Rightarrow>
               if allclose C (update_centroids self ls X)
               then (Inr (), self\<lparr>labels := Some ls\<rparr>)
               else fit_loop m
                      (self\<lparr>labels := Some ls, centroids := Some (update_centroids self ls X)\<rparr>) X))"

text \<open>\<^verbatim>\<open>if self.random_state: np.random.seed(self.random_state)\<close>\<close>

fun seed_if_set :: "'g np_random \<Rightarrow> int option \<Rightarrow> 'g \<Rightarrow> (error + unit) \<times> 'g" where
  "seed_if_set rs None g = (Inr (), g)"
| "seed_if_set rs (Some s) g = (if s \<noteq> 0 then seed rs s g else (Inr (), g))"

text \<open>
  \<^verbatim>\<open>fit\<close>: the result (an exception or None), the engine and the generator after
  the call.
\<close>

definition fit :: "'g np_random \<Rightarrow> KMeans \<Rightarrow> ndarray \<Rightarrow> 'g \<Rightarrow> (error + unit) \<times> KMeans \<times> 'g" where
  "fit rs self X g =
     (case seed_if_set rs (random_state self) g of
        (Inl err, g1) \<Rightarrow> (Inl err, self, g1)
      | (Inr u, g1) \<Rightarrow>
          (case choice rs (nrows X) (n_clusters self) g1 of
             (Inl err, g2) \<Rightarrow> (Inl err, self, g2)
           | (Inr initial_indices, g2) \<Rightarrow>
               (case take_rows X initial_indices of
                  Inl err \<Rightarrow> (Inl err, self, g2)
                | Inr C \<Rightarrow>
                    (case fit_loop (nat (max_iter self)) (self\<lparr>centroids := Some C\<rparr>) X of
                       (r, self') \<Rightarrow> (r, self', g2)))))"

text \<open>\<^verbatim>\<open>predict\<close>: the labels (or the exception) and the engine after the call.\<close>

definition predict :: "KMeans \<Rightarrow> ndarray \<Rightarrow> (error + nat list) \<times> KMeans" where
  "predict self X = (assign_labels self X, self)"

subsection \<open>A concrete generator for evaluation\<close>

text \<open>
  A small deterministic generator used to run the engine on concrete inputs: its state
  is a counter, a permutation is the identity rotated by the counter.
\<close>

definition counter_source :: "nat np_random" where
  "counter_source = \<lparr>rs_seed = nat, rs_permutation = (\<lambda>g n. (rotate g [0..<n], Suc g))\<rparr>"

subsection \<open>The engine over an arbitrary float64 arithmetic\<close>

text \<open>
  What numpy computes on doubles (rounding, underflow, overflow, the order in which a sum
  is taken) is outside the repository. For the properties that depend on it, the engine
  is written once more with the arithmetic as a parameter: the element type and the
  operations the two methods apply to it. The control flow is that of the definitions
  above, statement by statement; \<open>exact_arith\<close> is the arithmetic used there. A
  property proved for every arithmetic holds for numpy's.
\<close>

text \<open>
  The operations: elementwise \<^verbatim>\<open>-\<close> and \<^verbatim>\<open>** 2\<close>, \<^verbatim>\<open>.sum\<close> over one lane of the
  last axis, \<^verbatim>\<open>np.sqrt\<close>, the comparison \<^verbatim>\<open>>=\<close> and the nan test of the arg-min
  scan, \<^verbatim>\<open>.mean(axis=0)\<close> of a selection of rows of a given width, and one element of
  \<^verbatim>\<open>np.isclose\<close>.
\<close>

record 'f arith =
  op_sub :: "'f \<Rightarrow> 'f \<Rightarrow> 'f"
  op_square :: "'f \<Rightarrow> 'f"
  op_sum :: "'f list \<Rightarrow> 'f"
  op_sqrt :: "'f \<Rightarrow> 'f"
  op_ge :: "'f \<Rightarrow> 'f \<Rightarrow> bool"
  op_isnan :: "'f \<Rightarrow> bool"
  op_mean_axis0 :: "nat \<Rightarrow> 'f list list \<Rightarrow> 'f list"
  op_isclose :: "'f \<Rightarrow> 'f \<Rightarrow> bool"


text \<open>Arrays of shape \<open>(N, D)\<close> over the element type, and \<^verbatim>\<open>X[indices]\<close>.\<close>

record 'f ndarray_in =
  ncols_in :: nat
  rows_in :: "'f list list"

definition nrows_in :: "'f ndarray_in \<Rightarrow> nat" where
  "nrows_in X = length (rows_in X)"


text \<open>\<^verbatim>\<open>np.argmin\<close> over one row, with the arithmetic's nan test and \<^verbatim>\<open>>=\<close>.\<close>

fun argmin_scan_in :: "'f arith \<Rightarrow> 'f \<Rightarrow> nat \<Rightarrow> nat \<Rightarrow> 'f list \<Rightarrow> nat" where
  "argmin_scan_in ar mp min_ind i [] = min_ind"
| "argmin_scan_in ar mp min_ind i (v # vs) =
     (if op_isnan ar mp then min_ind
      else if \<not> op_ge ar v mp then argmin_scan_in ar v i (Suc i) vs
      else argmin_scan_in ar mp min_ind (Suc i) vs)"

fun argmin_in :: "'f arith \<Rightarrow> 'f list \<Rightarrow> error + nat" where
  "argmin_in ar [] = Inl ValueError"
| "argmin_in ar (v # vs) = Inr (argmin_scan_in ar v 0 1 vs)"

text \<open>\<^verbatim>\<open>np.allclose(a, b)\<close> on two arrays of one shape.\<close>

definition allclose_in :: "'f arith \<Rightarrow> 'f ndarray_in \<Rightarrow> 'f ndarray_in \<Rightarrow> bool" where
  "allclose_in ar a b = list_all2 (list_all2 (op_isclose ar)) (rows_in a) (rows_in b)"

text \<open>The class and \<^verbatim>\<open>__init__\<close>.\<close>

record 'f KMeans_in =
  n_clusters_in :: int
  max_iter_in :: int
  random_state_in :: "int option"
  centroids_in :: "'f ndarray_in option"
  labels_in :: "nat list option"


text \<open>Broadcasting of the last axis, and one entry of \<^verbatim>\<open>distances\<close>:
  \<^verbatim>\<open>np.sqrt(((x - c) ** 2).sum())\<close>.\<close>

definition bcast_in :: "'f list \<Rightarrow> nat \<Rightarrow> 'f list" where
  "bcast_in v d = (if length v = 1 \<and> d \<noteq> 1 then replicate d (hd v) else v)"

definition distance_in :: "'f arith \<Rightarrow> 'f list \<Rightarrow> 'f list \<Rightarrow> 'f" where
  "distance_in ar x c =
     op_sqrt ar (op_sum ar (map (op_square ar)
       (map2 (op_sub ar) (bcast_in x (length c)) (bcast_in c (length x)))))"

text \<open>\<^verbatim>\<open>np.argmin(distances, axis=1)\<close> and \<^verbatim>\<open>_assign_labels\<close>.\<close>

fun argmin_rows_in :: "'f arith \<Rightarrow> 'f list list \<Rightarrow> error + nat list" where
  "argmin_rows_in ar [] = Inr []"
| "argmin_rows_in ar (d # ds) =
     (case argmin_in ar d of
        Inl err \<Rightarrow> Inl err
      | Inr l \<Rightarrow>
          (case argmin_rows_in ar ds of Inl err \<Rightarrow> Inl err | Inr ls \<Rightarrow> Inr (l # ls)))"

definition assign_labels_in :: "'f arith \<Rightarrow> 'f KMeans_in \<Rightarrow> 'f ndarray_in \<Rightarrow> error + nat list" where
  "assign_labels_in ar self X =
     (case centroids_in self of
        None \<Rightarrow> (if nrows_in X = 0 then Inr [] else Inl TypeError)
      | Some C \<Rightarrow>
          if \<not> broadcastable (ncols_in X) (ncols_in C) then Inl ValueError
          else if nrows_in C = 0 then Inl ValueError
          else argmin_rows_in ar
                 (map (\<lambda>x. map (\<lambda>c. distance_in ar x c) (rows_in C)) (rows_in X)))"

text \<open>\<^verbatim>\<open>X[self.labels == i]\<close> and \<^verbatim>\<open>_update_centroids\<close>.\<close>

definition members_in :: "nat list \<Rightarrow> 'f ndarray_in \<Rightarrow> nat \<Rightarrow> 'f list list" where
  "members_in ls X i = map snd (filter (\<lambda>(l, x). l = i) (zip ls (rows_in X)))"

definition update_centroids_in ::
  "'f arith \<Rightarrow> 'f KMeans_in \<Rightarrow> nat list \<Rightarrow> 'f ndarray_in \<Rightarrow> 'f ndarray_in" where
  "update_centroids_in ar self ls X =
     \<lparr>ncols_in = ncols_in X,
      rows_in = map (\<lambda>i. op_mean_axis0 ar (ncols_in X) (members_in ls X i))
                  [0..<nat (n_clusters_in self)]\<rparr>"

text \<open>The loop of \<^verbatim>\<open>fit\<close>, and \<^verbatim>\<open>fit\<close>.\<close>

fun fit_loop_in ::
  "'f arith \<Rightarrow> nat \<Rightarrow> 'f KMeans_in \<Rightarrow> 'f ndarray_in \<Rightarrow> (error + unit) \<times> 'f KMeans_in" where
  "fit_loop_in ar 0 self X = (Inr (), self)"
| "fit_loop_in ar (Suc m) self X =
     (case assign_labels_in ar self X of
        Inl err \<Rightarrow> (Inl err, self)
      | Inr ls \<Rightarrow>
          (case centroids_in self of
             None \<Rightarrow> (Inl TypeError, self\<lparr>labels_in := Some ls\<rparr>)
           | Some C \<Rightarrow>
               if allclose_in ar C (update_centroids_in ar self ls X)
               then (Inr (), self\<lparr>labels_in := Some ls\<rparr>)
               else fit_loop_in ar m
                      (self\<lparr>labels_in := Some ls,
                            centroids_in := Some (update_centroids_in ar self ls X)\<rparr>) X))"


subsection \<open>Notions of the specification\<close>

text \<open>The real number an array element stands for (not-a-number stands for none).\<close>

fun val :: "float64 \<Rightarrow> real" where
  "val (Fin a) = a"
| "val NaN = 0"

text \<open>The Euclidean distance of two vectors of numbers, as mathematics has it.\<close>

definition euclidean :: "float64 list \<Rightarrow> float64 list \<Rightarrow> real" where
  "euclidean x c = sqrt (sum_list (map2 (\<lambda>a b. (val a - val b) ^ 2) x c))"

text \<open>The squared Euclidean distance of two vectors of numbers.\<close>

definition sqdist :: "float64 list \<Rightarrow> float64 list \<Rightarrow> real" where
  "sqdist x c = sum_list (map2 (\<lambda>a b. (val a - val b) ^ 2) x c)"

text \<open>
  The seed, when one is set, is one that \<^verbatim>\<open>np.random.seed\<close> accepts.
\<close>

definition seed_accepted :: "KMeans \<Rightarrow> bool" where
  "seed_accepted self =
     (case random_state self of None \<Rightarrow> True | Some s \<Rightarrow> 0 \<le> s \<and> s < 2 ^ 32)"

text \<open>
  The total within-cluster squared distance of a labelling: the sum over the points of the
  squared distance to the centroid the point is labelled with. It is computed with the
  array arithmetic, so a not-a-number centroid that a point is labelled with shows in it.
\<close>

definition inertia :: "ndarray \<Rightarrow> ndarray \<Rightarrow> nat list \<Rightarrow> float64" where
  "inertia X C ls =
     fsum (map (\<lambda>(x, l). fsum (map fsquare (map2 fsub x (rows C ! l)))) (zip (rows X) ls))"

text \<open>
  The values of that sum along the loop of \<^verbatim>\<open>fit\<close>: for every iteration the sum
  after the assignment step (labels against the current centroids) and after the update
  step (the same labels against the recomputed centroids). The function follows
  \<open>fit_loop\<close> branch by branch.
\<close>

fun inertia_trace :: "nat \<Rightarrow> KMeans \<Rightarrow> ndarray \<Rightarrow> (float64 \<times> float64) list" where
  "inertia_trace 0 self X = []"
| "inertia_trace (Suc m) self X =
     (case assign_labels self X of
        Inl err \<Rightarrow> []
      | Inr ls \<Rightarrow>
          (case centroids self of
             None \<Rightarrow> []
           | Some C \<Rightarrow>
               (inertia X C ls, inertia X (update_centroids self ls X) ls) #
               (if allclose C (update_centroids self ls X) then []
                else inertia_trace m
                       (self\<lparr>labels := Some ls, centroids := Some (update_centroids self ls X)\<rparr>) X)))"

text \<open>
  Whether the loop of \<^verbatim>\<open>fit\<close> is left through \<^verbatim>\<open>break\<close>, that is, the
  convergence check succeeds within the iteration budget. The source keeps no such flag;
  this function follows \<open>fit_loop\<close> branch by branch and records it.
\<close>

fun converged_within :: "nat \<Rightarrow> KMeans \<Rightarrow> ndarray \<Rightarrow> bool" where
  "converged_within 0 self X = False"
| "converged_within (Suc m) self X =
     (case assign_labels self X of
        Inl err \<Rightarrow> False
      | Inr ls \<Rightarrow>
          (case centroids self of
             None \<Rightarrow> False
           | Some C \<Rightarrow>
               if allclose C (update_centroids self ls X) then True
               else converged_within m
                      (self\<lparr>labels := Some ls, centroids := Some (update_centroids self ls X)\<rparr>) X))"

text \<open>The same for a whole call of \<^verbatim>\<open>fit\<close>.\<close>

definition fit_converged :: "'g np_random \<Rightarrow> KMeans \<Rightarrow> ndarray \<Rightarrow> 'g \<Rightarrow> bool" where
  "fit_converged rs self X g =
     (case seed_if_set rs (random_state self) g of
        (Inl err, g1) \<Rightarrow> False
      | (Inr u, g1) \<Rightarrow>
          (case choice rs (nrows X) (n_clusters self) g1 of
             (Inl err, g2) \<Rightarrow> False
           | (Inr initial_indices, g2) \<Rightarrow>
               (case take_rows X initial_indices of
                  Inl err \<Rightarrow> False
                | Inr C \<Rightarrow>
                    converged_within (nat (max_iter self)) (self\<lparr>centroids := Some C\<rparr>) X)))"



fun converged_within_in :: "'f arith \<Rightarrow> nat \<Rightarrow> 'f KMeans_in \<Rightarrow> 'f ndarray_in \<Rightarrow> bool" where
  "converged_within_in ar 0 self X = False"
| "converged_within_in ar (Suc m) self X =
     (case assign_labels_in ar self X of
        Inl err \<Rightarrow> False
      | Inr ls \<Rightarrow>
          (case centroids_in self of
             None \<Rightarrow> False
           | Some C \<Rightarrow>
               if allclose_in ar C (update_centroids_in ar self ls X) then True
               else converged_within_in ar m
                      (self\<lparr>labels_in := Some ls,
                            centroids_in := Some (update_centroids_in ar self ls X)\<rparr>) X))"



subsection \<open>Concrete inputs\<close>

definition one_point :: ndarray where
  "one_point = \<lparr>ncols = 1, rows = [[Fin 0]]\<rparr>"

definition two_equal_points :: ndarray where
  "two_equal_points = \<lparr>ncols = 1, rows = [[Fin 0], [Fin 0]]\<rparr>"

definition no_points :: ndarray where
  "no_points = \<lparr>ncols = 2, rows = []\<rparr>"

definition five_points :: ndarray where
  "five_points = \<lparr>ncols = 1, rows = [[Fin 0], [Fin 1], [Fin 2], [Fin 3], [Fin 10]]\<rparr>"

definition two_points :: ndarray where
  "two_points = \<lparr>ncols = 1, rows = [[Fin 0], [Fin 5]]\<rparr>"

definition three_points :: ndarray where
  "three_points = \<lparr>ncols = 1, rows = [[Fin 0], [Fin 0], [Fin 10]]\<rparr>"






section \<open>Evaluation lemmas\<close>

lemma fit_loop_numeral [simp]:
  "fit_loop (numeral n) self X = fit_loop (Suc (pred_numeral n)) self X"
  by (simp add: numeral_eq_Suc)

lemma converged_within_numeral [simp]:
  "converged_within (numeral n) self X = converged_within (Suc (pred_numeral n)) self X"
  by (simp add: numeral_eq_Suc)

lemma inertia_trace_numeral [simp]:
  "inertia_trace (numeral n) self X = inertia_trace (Suc (pred_numeral n)) self X"
  by (simp add: numeral_eq_Suc)

lemma valid_counter_source: "valid_source counter_source"
  by (simp add: valid_source_def counter_source_def atLeast0LessThan)

text \<open>In one dimension the distance is the absolute difference; no square root is left.\<close>

lemma distance_1d: "distance [Fin a] [Fin b] = Fin \<bar>a - b\<bar>"
  by (simp add: distance_def bcast_def fsum_def)

lemma distance_1d_nan: "distance [Fin a] [NaN] = NaN" "distance [NaN] [c] = NaN"
  by (simp_all add: distance_def bcast_def fsum_def)

text \<open>\<^verbatim>\<open>fit\<close> statement by statement, when none of them raises before the loop.\<close>

lemma fit_steps:
  assumes "seed_if_set rs (random_state self) g = (Inr u, g1)"
    and "choice rs (nrows X) (n_clusters self) g1 = (Inr initial_indices, g2)"
    and "take_rows X initial_indices = Inr C"
    and "fit_loop (nat (max_iter self)) (self\<lparr>centroids := Some C\<rparr>) X = (r, self')"
  shows "fit rs self X g = (r, self', g2)"
  using assms by (simp add: fit_def)

lemma fit_converged_steps:
  assumes "seed_if_set rs (random_state self) g = (Inr u, g1)"
    and "choice rs (nrows X) (n_clusters self) g1 = (Inr initial_indices, g2)"
    and "take_rows X initial_indices = Inr C"
  shows "fit_converged rs self X g
          = converged_within (nat (max_iter self)) (self\<lparr>centroids := Some C\<rparr>) X"
  using assms by (simp add: fit_converged_def)

lemmas run_simps = init_def take_rows_def nrows_def assign_labels_def broadcastable_def
  distance_1d distance_1d_nan fsum_def update_centroids_def members_def mean_axis0_def
  allclose_def predict_def choice_def counter_source_def eval_nat_numeral
  one_point_def two_equal_points_def no_points_def five_points_def two_points_def
  three_points_def

section \<open>Lemmas about the assignment step and the loop\<close>

lemma argmin_scan_bound:
  "min_ind < i \<Longrightarrow> argmin_scan mp min_ind i vs < i + length vs"
proof (induction vs arbitrary: mp min_ind i)
  case Nil
  then show ?case by simp
next
  case (Cons v vs)
  have a: "argmin_scan v i (Suc i) vs < Suc i + length vs"
    by (rule Cons.IH) simp
  have b: "argmin_scan mp min_ind (Suc i) vs < Suc i + length vs"
    by (rule Cons.IH) (use Cons.prems in simp)
  from a b Cons.prems show ?case by simp
qed

lemma argmin_bound: "ds \<noteq> [] \<Longrightarrow> \<exists>l. argmin ds = Inr l \<and> l < length ds"
  using argmin_scan_bound [of 0 1] by (cases ds) auto

lemma argmin_rows_total:
  assumes "list_all (\<lambda>d. length d = k) dss" and "0 < k"
  shows "\<exists>ls. argmin_rows dss = Inr ls \<and> length ls = length dss \<and> list_all (\<lambda>l. l < k) ls"
  using assms
proof (induction dss)
  case Nil
  then show ?case by simp
next
  case (Cons d dss)
  then have "d \<noteq> []" by auto
  then obtain l where l: "argmin d = Inr l" "l < length d"
    using argmin_bound by blast
  from Cons obtain ls where "argmin_rows dss = Inr ls" "length ls = length dss"
    "list_all (\<lambda>l. l < k) ls" by auto
  with l Cons.prems show ?case by simp
qed

lemma argmin_rows_nth:
  "argmin_rows dss = Inr ls \<Longrightarrow> n < length dss \<Longrightarrow> argmin (dss ! n) = Inr (ls ! n)"
proof (induction dss arbitrary: ls n)
  case Nil
  then show ?case by simp
next
  case (Cons d dss)
  then show ?case
    by (cases n) (auto split: sum.splits)
qed

lemma assign_labels_total:
  assumes "centroids self = Some C" and "broadcastable (ncols X) (ncols C)" and "0 < nrows C"
  shows "\<exists>ls. assign_labels self X = Inr ls \<and> length ls = nrows X
            \<and> list_all (\<lambda>l. l < nrows C) ls"
proof -
  have "list_all (\<lambda>d. length d = nrows C) (map (\<lambda>x. map (\<lambda>c. distance x c) (rows C)) (rows X))"
    by (simp add: list_all_iff nrows_def)
  from argmin_rows_total [OF this assms(3)] assms show ?thesis
    by (simp add: assign_labels_def nrows_def)
qed

lemma argmin_scan_least:
  assumes "mi < i" and "length pre = i" and "pre ! mi = m"
    and "\<forall>k<i. m \<le> pre ! k" and "\<forall>k<mi. m < pre ! k"
  shows "(\<forall>k<i + length vs.
            (pre @ vs) ! argmin_scan (Fin m) mi i (map Fin vs) \<le> (pre @ vs) ! k)
       \<and> (\<forall>k<argmin_scan (Fin m) mi i (map Fin vs).
            (pre @ vs) ! argmin_scan (Fin m) mi i (map Fin vs) < (pre @ vs) ! k)"
  using assms
proof (induction vs arbitrary: pre mi i m)
  case Nil
  then show ?case by simp
next
  case (Cons v vs)
  show ?case
  proof (cases "m \<le> v")
    case True
    have "(\<forall>k<Suc i + length vs.
            ((pre @ [v]) @ vs) ! argmin_scan (Fin m) mi (Suc i) (map Fin vs) \<le> ((pre @ [v]) @ vs) ! k)
       \<and> (\<forall>k<argmin_scan (Fin m) mi (Suc i) (map Fin vs).
            ((pre @ [v]) @ vs) ! argmin_scan (Fin m) mi (Suc i) (map Fin vs) < ((pre @ [v]) @ vs) ! k)"
    proof (rule Cons.IH)
      show "mi < Suc i" using Cons.prems by simp
      show "length (pre @ [v]) = Suc i" using Cons.prems by simp
      show "(pre @ [v]) ! mi = m" using Cons.prems by (simp add: nth_append)
      show "\<forall>k<Suc i. m \<le> (pre @ [v]) ! k"
        using Cons.prems True by (auto simp: nth_append less_Suc_eq)
      show "\<forall>k<mi. m < (pre @ [v]) ! k"
        using Cons.prems by (auto simp: nth_append)
    qed
    with True show ?thesis by simp
  next
    case False
    have "(\<forall>k<Suc i + length vs.
            ((pre @ [v]) @ vs) ! argmin_scan (Fin v) i (Suc i) (map Fin vs) \<le> ((pre @ [v]) @ vs) ! k)
       \<and> (\<forall>k<argmin_scan (Fin v) i (Suc i) (map Fin vs).
            ((pre @ [v]) @ vs) ! argmin_scan (Fin v) i (Suc i) (map Fin vs) < ((pre @ [v]) @ vs) ! k)"
    proof (rule Cons.IH)
      show "i < Suc i" by simp
      show "length (pre @ [v]) = Suc i" using Cons.prems by simp
      show "(pre @ [v]) ! i = v" using Cons.prems by (simp add: nth_append)
      show "\<forall>k<Suc i. v \<le> (pre @ [v]) ! k"
        using Cons.prems False by (fastforce simp: nth_append less_Suc_eq)
      show "\<forall>k<i. v < (pre @ [v]) ! k"
        using Cons.prems False by (fastforce simp: nth_append)
    qed
    with False show ?thesis by simp
  qed
qed

lemma argmin_least:
  assumes "rs \<noteq> []"
  shows "\<exists>l. argmin (map Fin rs) = Inr l \<and> l < length rs
            \<and> (\<forall>k<length rs. rs ! l \<le> rs ! k) \<and> (\<forall>k<l. rs ! l < rs ! k)"
proof -
  from assms obtain r rs' where rs: "rs = r # rs'" by (cases rs) auto
  have "argmin_scan (Fin r) 0 1 (map Fin rs') < 1 + length rs'"
    using argmin_scan_bound [of 0 1 "Fin r" "map Fin rs'"] by simp
  moreover have "(\<forall>k<1 + length rs'.
            ([r] @ rs') ! argmin_scan (Fin r) 0 1 (map Fin rs') \<le> ([r] @ rs') ! k)
       \<and> (\<forall>k<argmin_scan (Fin r) 0 1 (map Fin rs').
            ([r] @ rs') ! argmin_scan (Fin r) 0 1 (map Fin rs') < ([r] @ rs') ! k)"
    by (rule argmin_scan_least) simp_all
  ultimately show ?thesis using rs by simp
qed

lemma fsum_squares_finite:
  assumes "length x = length c" and "list_all (\<lambda>v. \<not> isnan v) x" and "list_all (\<lambda>v. \<not> isnan v) c"
  shows "fsum (map fsquare (map2 fsub x c)) = Fin (sum_list (map2 (\<lambda>a b. (val a - val b) ^ 2) x c))"
  using assms
proof (induction x c rule: list_induct2)
  case Nil
  then show ?case by (simp add: fsum_def)
next
  case (Cons a x b c)
  then obtain a' b' where "a = Fin a'" "b = Fin b'"
    by (cases a; cases b) auto
  with Cons show ?case by (simp add: fsum_def)
qed

lemma distance_finite:
  assumes "length x = length c" and "list_all (\<lambda>v. \<not> isnan v) x" and "list_all (\<lambda>v. \<not> isnan v) c"
  shows "distance x c = Fin (euclidean x c)"
proof -
  have "bcast x (length c) = x" "bcast c (length x) = c"
    using assms(1) by (auto simp: bcast_def)
  with fsum_squares_finite [OF assms] show ?thesis
    by (simp add: distance_def euclidean_def)
qed

lemma assign_labels_labels_upd [simp]:
  "assign_labels (self\<lparr>labels := l\<rparr>) X = assign_labels self X"
  by (simp add: assign_labels_def)

lemma seed_if_set_accepted:
  "seed_accepted self \<Longrightarrow> \<exists>g1. seed_if_set rs (random_state self) g = (Inr (), g1)"
  by (cases "random_state self") (auto simp: seed_accepted_def seed_def)

lemma permutation_length:
  assumes "valid_source rs"
  shows "length (fst (rs_permutation rs g n)) = n"
proof -
  from assms have "distinct (fst (rs_permutation rs g n))"
    and "set (fst (rs_permutation rs g n)) = {..<n}"
    by (simp_all add: valid_source_def)
  then show ?thesis using distinct_card by fastforce
qed

lemma choice_valid:
  assumes "valid_source rs" and "0 \<le> k" and "k \<le> int n"
  shows "\<exists>idx g2. choice rs n k g = (Inr idx, g2) \<and> length idx = nat k
            \<and> distinct idx \<and> list_all (\<lambda>i. i < n) idx"
proof -
  let ?p = "fst (rs_permutation rs g n)"
  from assms(1) have p: "distinct ?p" "set ?p = {..<n}"
    by (simp_all add: valid_source_def)
  have "list_all (\<lambda>i. i < n) (take (nat k) ?p)"
    using p(2) by (auto simp: list_all_iff dest: in_set_takeD)
  moreover have "length (take (nat k) ?p) = nat k"
    using permutation_length [OF assms(1), of g n] assms(3) by simp
  moreover have "distinct (take (nat k) ?p)" using p(1) by simp
  ultimately show ?thesis using assms(2,3) by (auto simp: choice_def)
qed

lemma take_rows_valid:
  "list_all (\<lambda>i. i < nrows X) idx
   \<Longrightarrow> take_rows X idx = Inr \<lparr>ncols = ncols X, rows = map (\<lambda>i. rows X ! i) idx\<rparr>"
  by (simp add: take_rows_def)

lemma fit_loop_labels:
  assumes "centroids self = Some C" and "ncols C = ncols X"
    and "nrows C = nat (n_clusters self)" and "0 < n_clusters self"
  shows "\<exists>self'. fit_loop m self X = (Inr (), self')
           \<and> (m = 0 \<longrightarrow> self' = self)
           \<and> (0 < m \<longrightarrow> (\<exists>ls. labels self' = Some ls \<and> length ls = nrows X
                              \<and> list_all (\<lambda>l. l < nat (n_clusters self)) ls))"
  using assms
proof (induction m arbitrary: self C)
  case 0
  then show ?case by simp
next
  case (Suc m)
  from Suc.prems have "broadcastable (ncols X) (ncols C)" "0 < nrows C"
    by (simp_all add: broadcastable_def)
  from assign_labels_total [OF Suc.prems(1) this] Suc.prems(3)
  obtain ls where ls: "assign_labels self X = Inr ls" "length ls = nrows X"
    "list_all (\<lambda>l. l < nat (n_clusters self)) ls" by auto
  let ?U = "update_centroids self ls X"
  let ?next = "self\<lparr>labels := Some ls, centroids := Some ?U\<rparr>"
  show ?case
  proof (cases "allclose C ?U")
    case True
    with ls Suc.prems(1) show ?thesis by simp
  next
    case False
    have "\<exists>self'. fit_loop m ?next X = (Inr (), self')
           \<and> (m = 0 \<longrightarrow> self' = ?next)
           \<and> (0 < m \<longrightarrow> (\<exists>ls. labels self' = Some ls \<and> length ls = nrows X
                              \<and> list_all (\<lambda>l. l < nat (n_clusters ?next)) ls))"
    proof (rule Suc.IH)
      show "centroids ?next = Some ?U" by simp
      show "ncols ?U = ncols X" by (simp add: update_centroids_def)
      show "nrows ?U = nat (n_clusters ?next)" by (simp add: update_centroids_def nrows_def)
      show "0 < n_clusters ?next" using Suc.prems by simp
    qed
    then obtain self' where s: "fit_loop m ?next X = (Inr (), self')"
      "m = 0 \<longrightarrow> self' = ?next"
      "0 < m \<longrightarrow> (\<exists>ls. labels self' = Some ls \<and> length ls = nrows X
                              \<and> list_all (\<lambda>l. l < nat (n_clusters self)) ls)"
      by auto
    have "\<exists>ls. labels self' = Some ls \<and> length ls = nrows X
                              \<and> list_all (\<lambda>l. l < nat (n_clusters self)) ls"
      using s(2,3) ls by (cases "m = 0") auto
    with s(1) False ls Suc.prems(1) show ?thesis by simp
  qed
qed

lemma update_centroids_empty_cluster:
  assumes "i < nat (n_clusters self)" and "members ls X i = []"
  shows "rows (update_centroids self ls X) ! i = replicate (ncols X) NaN"
  using assms by (simp add: update_centroids_def mean_axis0_def map_replicate_const)

lemma converged_within_predict:
  assumes "converged_within m self X"
  shows "\<exists>self' ls. fit_loop m self X = (Inr (), self') \<and> labels self' = Some ls
           \<and> assign_labels self' X = Inr ls"
  using assms
proof (induction m arbitrary: self)
  case 0
  then show ?case by simp
next
  case (Suc m)
  from Suc.prems obtain ls where ls: "assign_labels self X = Inr ls"
    by (cases "assign_labels self X") auto
  with Suc.prems obtain C where C: "centroids self = Some C"
    by (cases "centroids self") auto
  let ?U = "update_centroids self ls X"
  show ?case
  proof (cases "allclose C ?U")
    case True
    with ls C show ?thesis by simp
  next
    case False
    with Suc.prems ls C
    have "converged_within m (self\<lparr>labels := Some ls, centroids := Some ?U\<rparr>) X" by simp
    from Suc.IH [OF this] False ls C show ?thesis by simp
  qed
qed

lemma fit_seeded_reproducible:
  assumes "random_state self = Some s" and "s \<noteq> 0"
  shows "fst (fit rs self X g) = fst (fit rs self X g')
       \<and> fst (snd (fit rs self X g)) = fst (snd (fit rs self X g'))"
proof (cases "0 \<le> s \<and> s < 2 ^ 32")
  case True
  with assms have "seed_if_set rs (random_state self) g = (Inr (), rs_seed rs s)"
    "seed_if_set rs (random_state self) g' = (Inr (), rs_seed rs s)"
    by (simp_all add: seed_def)
  then have "fit rs self X g = fit rs self X g'" by (simp add: fit_def)
  then show ?thesis by simp
next
  case False
  with assms have "seed_if_set rs (random_state self) g = (Inl ValueError, g)"
    "seed_if_set rs (random_state self) g' = (Inl ValueError, g')"
    by (simp_all add: seed_def)
  then show ?thesis by (simp add: fit_def)
qed

lemma assign_labels_argmin:
  assumes cen: "centroids self = Some C" and mX: "matrix X" and mC: "matrix C"
    and w: "ncols X = ncols C" and k: "0 < nrows C"
    and fX: "finite_array X" and fC: "finite_array C"
    and res: "assign_labels self X = Inr ls" and n: "n < nrows X"
  shows "argmin (map Fin (map (\<lambda>c. euclidean (rows X ! n) c) (rows C))) = Inr (ls ! n)"
proof -
  let ?dss = "map (\<lambda>x. map (\<lambda>c. distance x c) (rows C)) (rows X)"
  let ?x = "rows X ! n"
  from res cen w k have rows_ls: "argmin_rows ?dss = Inr ls"
    by (simp add: assign_labels_def broadcastable_def)
  from n have xin: "?x \<in> set (rows X)" by (simp add: nrows_def)
  with mX fX have x: "length ?x = ncols X" "list_all (\<lambda>v. \<not> isnan v) ?x"
    by (auto simp: matrix_def finite_array_def list_all_iff)
  have d: "distance ?x c = Fin (euclidean ?x c)" if "c \<in> set (rows C)" for c
  proof (rule distance_finite)
    from that mC w x show "length ?x = length c" by (simp add: matrix_def list_all_iff)
    from x show "list_all (\<lambda>v. \<not> isnan v) ?x" by simp
    from that fC show "list_all (\<lambda>v. \<not> isnan v) c" by (simp add: finite_array_def list_all_iff)
  qed
  have eq: "map (\<lambda>c. distance ?x c) (rows C) = map Fin (map (\<lambda>c. euclidean ?x c) (rows C))"
    by (simp add: d)
  from n have "?dss ! n = map (\<lambda>c. distance ?x c) (rows C)"
    by (simp add: nrows_def)
  moreover from n have "argmin (?dss ! n) = Inr (ls ! n)"
    by (intro argmin_rows_nth [OF rows_ls]) (simp add: nrows_def)
  ultimately have "argmin (map (\<lambda>c. distance ?x c) (rows C)) = Inr (ls ! n)" by simp
  then show ?thesis unfolding eq .
qed

section \<open>Lemmas about sums and means of numbers\<close>

lemma fsum_finite:
  "list_all (\<lambda>v. \<not> isnan v) vs \<Longrightarrow> fsum vs = Fin (sum_list (map val vs))"
proof (induction vs)
  case Nil
  then show ?case by (simp add: fsum_def)
next
  case (Cons v vs)
  then obtain a where "v = Fin a" by (cases v) auto
  with Cons show ?case by (simp add: fsum_def)
qed

lemma fdiv_count_pos: "0 < n \<Longrightarrow> fdiv_count (Fin a) n = Fin (a / real n)"
  by (cases n) simp_all

section \<open>Lemmas about the sum of squared distances\<close>

lemma euclidean_sqdist: "euclidean x c = sqrt (sqdist x c)"
  by (simp add: euclidean_def sqdist_def)

lemma sqdist_nonneg: "0 \<le> sqdist x c"
  unfolding sqdist_def by (rule sum_list_nonneg) auto

lemma sqdist_sum_nth:
  assumes "length x = d" and "length c = d"
  shows "sqdist x c = (\<Sum>j<d. (val (x ! j) - val (c ! j)) ^ 2)"
proof -
  have "sqdist x c = (\<Sum>j = 0..<length (map2 (\<lambda>a b. (val a - val b) ^ 2) x c).
                          map2 (\<lambda>a b. (val a - val b) ^ 2) x c ! j)"
    unfolding sqdist_def by (rule sum_list_sum_nth)
  also have "\<dots> = (\<Sum>j = 0..<d. (val (x ! j) - val (c ! j)) ^ 2)"
    using assms by (intro sum.cong) auto
  finally show ?thesis by (simp add: atLeast0LessThan)
qed

text \<open>The scalar fact behind the update step: the mean minimises the sum of squares.\<close>

lemma sum_squares_shift:
  fixes vs :: "real list"
  shows "sum_list (map (\<lambda>v. (v - c) ^ 2) vs)
       = sum_list (map (\<lambda>v. (v - m) ^ 2) vs)
         + 2 * (m - c) * (sum_list vs - real (length vs) * m)
         + real (length vs) * (m - c) ^ 2"
  by (induction vs) (simp_all add: power2_eq_square algebra_simps)

lemma mean_minimises_squares:
  fixes vs :: "real list"
  assumes "vs \<noteq> []"
  shows "sum_list (map (\<lambda>v. (v - sum_list vs / real (length vs)) ^ 2) vs)
       \<le> sum_list (map (\<lambda>v. (v - c) ^ 2) vs)"
proof -
  let ?m = "sum_list vs / real (length vs)"
  from assms have "real (length vs) * ?m = sum_list vs" by simp
  with sum_squares_shift [of c vs ?m]
  have "sum_list (map (\<lambda>v. (v - c) ^ 2) vs)
       = sum_list (map (\<lambda>v. (v - ?m) ^ 2) vs) + real (length vs) * (?m - c) ^ 2"
    by simp
  moreover have "0 \<le> real (length vs) * (?m - c) ^ 2" by simp
  ultimately show ?thesis by linarith
qed

lemma sum_list_sum_swap:
  fixes h :: "'a \<Rightarrow> nat \<Rightarrow> real"
  shows "sum_list (map (\<lambda>x. \<Sum>j<d. h x j) xs) = (\<Sum>j<d. sum_list (map (\<lambda>x. h x j) xs))"
  by (induction xs) (simp_all add: sum.distrib)

text \<open>One cluster: its mean row is at least as good as any other row.\<close>

lemma cluster_mean_minimises:
  assumes ne: "ms \<noteq> []" and len: "list_all (\<lambda>r. length r = d) ms" and c: "length c = d"
    and mu: "length mu = d"
      "\<forall>j<d. val (mu ! j) = sum_list (map (\<lambda>r. val (r ! j)) ms) / real (length ms)"
  shows "sum_list (map (\<lambda>x. sqdist x mu) ms) \<le> sum_list (map (\<lambda>x. sqdist x c) ms)"
proof -
  have a: "sum_list (map (\<lambda>x. sqdist x e) ms)
         = (\<Sum>j<d. sum_list (map (\<lambda>x. (val (x ! j) - val (e ! j)) ^ 2) ms))"
    if "length e = d" for e
  proof -
    have "map (\<lambda>x. sqdist x e) ms = map (\<lambda>x. \<Sum>j<d. (val (x ! j) - val (e ! j)) ^ 2) ms"
      using len that by (intro map_cong refl sqdist_sum_nth) (auto simp: list_all_iff)
    then have "sum_list (map (\<lambda>x. sqdist x e) ms)
             = sum_list (map (\<lambda>x. \<Sum>j<d. (val (x ! j) - val (e ! j)) ^ 2) ms)"
      by (rule arg_cong)
    also have "\<dots> = (\<Sum>j<d. sum_list (map (\<lambda>x. (val (x ! j) - val (e ! j)) ^ 2) ms))"
      by (rule sum_list_sum_swap)
    finally show ?thesis .
  qed
  have "sum_list (map (\<lambda>x. (val (x ! j) - val (mu ! j)) ^ 2) ms)
      \<le> sum_list (map (\<lambda>x. (val (x ! j) - val (c ! j)) ^ 2) ms)" if j: "j < d" for j
  proof -
    let ?vs = "map (\<lambda>r. val (r ! j)) ms"
    from ne have "?vs \<noteq> []" by simp
    from mean_minimises_squares [OF this, of "val (c ! j)"] mu(2) j
    show ?thesis by (simp add: comp_def)
  qed
  then have "(\<Sum>j<d. sum_list (map (\<lambda>x. (val (x ! j) - val (mu ! j)) ^ 2) ms))
           \<le> (\<Sum>j<d. sum_list (map (\<lambda>x. (val (x ! j) - val (c ! j)) ^ 2) ms))"
    by (intro sum_mono) simp
  with a [OF c] a [OF mu(1)] show ?thesis by simp
qed

text \<open>Summing over the points is summing cluster by cluster.\<close>

lemma sum_by_cluster:
  fixes f :: "'a \<Rightarrow> nat \<Rightarrow> real"
  assumes "length xs = length ls" and "list_all (\<lambda>l. l < k) ls"
  shows "sum_list (map (\<lambda>(x, l). f x l) (zip xs ls))
       = (\<Sum>i<k. sum_list (map (\<lambda>x. f x i) (map snd (filter (\<lambda>(l, x). l = i) (zip ls xs)))))"
  using assms
proof (induction xs ls rule: list_induct2)
  case Nil
  then show ?case by simp
next
  case (Cons x xs l ls)
  let ?S = "\<lambda>i. sum_list (map (\<lambda>x. f x i) (map snd (filter (\<lambda>(l, x). l = i) (zip ls xs))))"
  from Cons have l: "l < k" by simp
  have "(\<Sum>i<k. sum_list (map (\<lambda>x. f x i)
            (map snd (filter (\<lambda>(l, x). l = i) (zip (l # ls) (x # xs))))))
      = (\<Sum>i<k. (if i = l then f x i else 0) + ?S i)"
    by (intro sum.cong) auto
  also have "\<dots> = (\<Sum>i<k. if i = l then f x i else 0) + (\<Sum>i<k. ?S i)"
    by (simp add: sum.distrib)
  also have "(\<Sum>i<k. if i = l then f x i else 0) = f x l"
    using l by simp
  finally show ?case using Cons by simp
qed

lemma row_squares_finite:
  assumes "length x = length c" and "list_all (\<lambda>v. \<not> isnan v) x" and "list_all (\<lambda>v. \<not> isnan v) c"
  shows "fsum (map fsquare (map2 fsub x c)) = Fin (sqdist x c)"
  unfolding sqdist_def by (rule fsum_squares_finite [OF assms])

lemma fsum_map_finite:
  assumes "\<forall>z\<in>set zs. g z = Fin (g' z)"
  shows "fsum (map g zs) = Fin (sum_list (map g' zs))"
  using assms by (induction zs) (simp_all add: fsum_def)

lemma inertia_finite:
  assumes mX: "matrix X" and fX: "finite_array X" and len: "length ls = nrows X"
    and C: "\<forall>l\<in>set ls. length (rows C ! l) = ncols X \<and> list_all (\<lambda>v. \<not> isnan v) (rows C ! l)"
  shows "inertia X C ls = Fin (sum_list (map (\<lambda>(x, l). sqdist x (rows C ! l)) (zip (rows X) ls)))"
  unfolding inertia_def
proof (rule fsum_map_finite, rule ballI)
  fix z assume z: "z \<in> set (zip (rows X) ls)"
  obtain x l where xl: "z = (x, l)" by (cases z)
  with z have "x \<in> set (rows X)" "l \<in> set ls"
    by (auto dest: set_zip_leftD set_zip_rightD)
  with mX fX C have "length x = length (rows C ! l)" "list_all (\<lambda>v. \<not> isnan v) x"
    "list_all (\<lambda>v. \<not> isnan v) (rows C ! l)"
    by (auto simp: matrix_def finite_array_def list_all_iff)
  from row_squares_finite [OF this] xl
  show "(case z of (x, l) \<Rightarrow> fsum (map fsquare (map2 fsub x (rows C ! l))))
      = Fin (case z of (x, l) \<Rightarrow> sqdist x (rows C ! l))"
    by simp
qed

lemma mean_axis0_rows:
  assumes "list_all (\<lambda>r. length r = d) ms" and "list_all (list_all (\<lambda>v. \<not> isnan v)) ms"
    and "ms \<noteq> []"
  shows "mean_axis0 d ms
       = map (\<lambda>j. Fin (sum_list (map (\<lambda>r. val (r ! j)) ms) / real (length ms))) [0..<d]"
proof -
  have "fdiv_count (fsum (map (\<lambda>r. r ! j) ms)) (length ms)
        = Fin (sum_list (map (\<lambda>r. val (r ! j)) ms) / real (length ms))"
    if j: "j < d" for j
  proof -
    have "list_all (\<lambda>v. \<not> isnan v) (map (\<lambda>r. r ! j) ms)"
      using assms(1,2) j by (auto simp: list_all_iff)
    from fsum_finite [OF this] assms(3) show ?thesis
      by (simp add: fdiv_count_pos comp_def)
  qed
  then show ?thesis by (simp add: mean_axis0_def)
qed

lemma members_subset: "set (members ls X i) \<subseteq> set (rows X)"
  by (auto simp: members_def dest: set_zip_rightD)

lemma members_nonempty:
  assumes "length ls = nrows X" and "l \<in> set ls"
  shows "members ls X l \<noteq> []"
proof -
  from assms(2) obtain n where n: "n < length ls" "ls ! n = l"
    by (auto simp: in_set_conv_nth)
  with assms(1) have "(l, rows X ! n) \<in> set (zip ls (rows X))"
    by (auto simp: set_zip nrows_def)
  then have "rows X ! n \<in> set (members ls X l)"
    by (force simp: members_def)
  then show ?thesis by auto
qed

text \<open>
  The update step: against the labels just assigned, the recomputed centroids give a sum of
  squared distances that is a number and is at most the sum for the centroids before.
\<close>

lemma update_step_inertia:
  assumes mX: "matrix X" and fX: "finite_array X"
    and mC: "matrix C" and fC: "finite_array C" and w: "ncols C = ncols X"
    and k: "nrows C = nat (n_clusters self)"
    and len: "length ls = nrows X" and rng: "list_all (\<lambda>l. l < nrows C) ls"
  shows "\<exists>a b. inertia X C ls = Fin a \<and> inertia X (update_centroids self ls X) ls = Fin b
           \<and> b \<le> a"
proof -
  let ?U = "update_centroids self ls X"
  let ?d = "ncols X"
  let ?K = "nrows C"
  have mem: "list_all (\<lambda>r. length r = ?d) (members ls X i)"
    "list_all (list_all (\<lambda>v. \<not> isnan v)) (members ls X i)" for i
    using members_subset [of ls X i] mX fX
    by (auto simp: matrix_def finite_array_def list_all_iff)
  have Urow: "rows ?U ! i = mean_axis0 ?d (members ls X i)" if "i < ?K" for i
    using that k by (simp add: update_centroids_def)
  have Umean: "rows ?U ! i
      = map (\<lambda>j. Fin (sum_list (map (\<lambda>r. val (r ! j)) (members ls X i))
                       / real (length (members ls X i)))) [0..<?d]"
    if "i < ?K" "members ls X i \<noteq> []" for i
    using Urow [OF that(1)] mean_axis0_rows [OF mem that(2)] by simp
  have a: "inertia X C ls = Fin (sum_list (map (\<lambda>(x, l). sqdist x (rows C ! l)) (zip (rows X) ls)))"
  proof (rule inertia_finite [OF mX fX len], rule ballI)
    fix l assume "l \<in> set ls"
    with rng have "l < ?K" by (simp add: list_all_iff)
    then have "rows C ! l \<in> set (rows C)" by (simp add: nrows_def)
    with mC fC w show "length (rows C ! l) = ?d \<and> list_all (\<lambda>v. \<not> isnan v) (rows C ! l)"
      by (simp add: matrix_def finite_array_def list_all_iff)
  qed
  have b: "inertia X ?U ls = Fin (sum_list (map (\<lambda>(x, l). sqdist x (rows ?U ! l)) (zip (rows X) ls)))"
  proof (rule inertia_finite [OF mX fX len], rule ballI)
    fix l assume l: "l \<in> set ls"
    with rng have "l < ?K" by (simp add: list_all_iff)
    from Umean [OF this members_nonempty [OF len l]]
    show "length (rows ?U ! l) = ?d \<and> list_all (\<lambda>v. \<not> isnan v) (rows ?U ! l)"
      by (simp add: list_all_iff)
  qed
  have xs: "length (rows X) = length ls" using len by (simp add: nrows_def)
  have "sum_list (map (\<lambda>(x, l). sqdist x (rows ?U ! l)) (zip (rows X) ls))
      = (\<Sum>i<?K. sum_list (map (\<lambda>x. sqdist x (rows ?U ! i)) (members ls X i)))"
    unfolding members_def by (rule sum_by_cluster [OF xs rng])
  also have "\<dots> \<le> (\<Sum>i<?K. sum_list (map (\<lambda>x. sqdist x (rows C ! i)) (members ls X i)))"
  proof (rule sum_mono)
    fix i assume "i \<in> {..<?K}"
    then have i: "i < ?K" by simp
    show "sum_list (map (\<lambda>x. sqdist x (rows ?U ! i)) (members ls X i))
        \<le> sum_list (map (\<lambda>x. sqdist x (rows C ! i)) (members ls X i))"
    proof (cases "members ls X i = []")
      case True
      then show ?thesis by simp
    next
      case False
      from i have "rows C ! i \<in> set (rows C)" by (simp add: nrows_def)
      with mC w have c: "length (rows C ! i) = ?d" by (simp add: matrix_def list_all_iff)
      show ?thesis
      proof (rule cluster_mean_minimises [OF False mem(1) c])
        show "length (rows ?U ! i) = ?d" using Umean [OF i False] by simp
        show "\<forall>j<?d. val (rows ?U ! i ! j)
                = sum_list (map (\<lambda>r. val (r ! j)) (members ls X i))
                  / real (length (members ls X i))"
          using Umean [OF i False] by simp
      qed
    qed
  qed
  also have "\<dots> = sum_list (map (\<lambda>(x, l). sqdist x (rows C ! l)) (zip (rows X) ls))"
    unfolding members_def by (rule sum_by_cluster [OF xs rng, symmetric])
  finally show ?thesis using a b by blast
qed

lemma sum_list_zip_mono:
  fixes F :: "'a \<Rightarrow> 'b \<Rightarrow> real"
  assumes "length ls' = length xs" and "length ls = length xs"
    and "\<forall>n<length xs. F (xs ! n) (ls' ! n) \<le> F (xs ! n) (ls ! n)"
  shows "sum_list (map (\<lambda>(x, l). F x l) (zip xs ls'))
       \<le> sum_list (map (\<lambda>(x, l). F x l) (zip xs ls))"
proof -
  have e: "sum_list (map (\<lambda>(x, l). F x l) (zip xs ks)) = (\<Sum>n<length xs. F (xs ! n) (ks ! n))"
    if "length ks = length xs" for ks :: "'b list"
  proof -
    have "sum_list (map (\<lambda>(x, l). F x l) (zip xs ks))
        = (\<Sum>n = 0..<length (map (\<lambda>(x, l). F x l) (zip xs ks)).
              map (\<lambda>(x, l). F x l) (zip xs ks) ! n)"
      by (rule sum_list_sum_nth)
    also have "\<dots> = (\<Sum>n = 0..<length xs. F (xs ! n) (ks ! n))"
      using that by (intro sum.cong) auto
    finally show ?thesis by (simp add: atLeast0LessThan)
  qed
  from assms(3) have "(\<Sum>n<length xs. F (xs ! n) (ls' ! n)) \<le> (\<Sum>n<length xs. F (xs ! n) (ls ! n))"
    by (intro sum_mono) simp
  with e [OF assms(1)] e [OF assms(2)] show ?thesis by simp
qed

text \<open>
  The assignment step: against centroids that are numbers, the labels it assigns give a
  sum of squared distances that is at most the sum for any other labelling.
\<close>

lemma assignment_step_inertia:
  assumes cen: "centroids self = Some C" and mX: "matrix X" and mC: "matrix C"
    and w: "ncols X = ncols C" and k: "0 < nrows C"
    and fX: "finite_array X" and fC: "finite_array C"
    and len0: "length ls0 = nrows X" and rng0: "list_all (\<lambda>l. l < nrows C) ls0"
    and res: "assign_labels self X = Inr ls"
  shows "\<exists>a b. inertia X C ls0 = Fin a \<and> inertia X C ls = Fin b \<and> b \<le> a"
proof -
  from w have "broadcastable (ncols X) (ncols C)" by (simp add: broadcastable_def)
  from assign_labels_total [OF cen this k] res
  have len: "length ls = nrows X" and rng: "list_all (\<lambda>l. l < nrows C) ls"
    by auto
  have Crow: "length (rows C ! l) = ncols X \<and> list_all (\<lambda>v. \<not> isnan v) (rows C ! l)"
    if "l < nrows C" for l
  proof -
    from that have "rows C ! l \<in> set (rows C)" by (simp add: nrows_def)
    with mC fC w show ?thesis by (simp add: matrix_def finite_array_def list_all_iff)
  qed
  have a: "inertia X C ls0
         = Fin (sum_list (map (\<lambda>(x, l). sqdist x (rows C ! l)) (zip (rows X) ls0)))"
    by (rule inertia_finite [OF mX fX len0]) (use rng0 Crow in \<open>auto simp: list_all_iff\<close>)
  have b: "inertia X C ls
         = Fin (sum_list (map (\<lambda>(x, l). sqdist x (rows C ! l)) (zip (rows X) ls)))"
    by (rule inertia_finite [OF mX fX len]) (use rng Crow in \<open>auto simp: list_all_iff\<close>)
  have "sqdist (rows X ! n) (rows C ! (ls ! n)) \<le> sqdist (rows X ! n) (rows C ! (ls0 ! n))"
    if n: "n < length (rows X)" for n
  proof -
    let ?rs = "map (\<lambda>c. euclidean (rows X ! n) c) (rows C)"
    from n have n': "n < nrows X" by (simp add: nrows_def)
    from k have "?rs \<noteq> []" by (simp add: nrows_def)
    from argmin_least [OF this] assign_labels_argmin [OF cen mX mC w k fX fC res n']
    have le: "\<forall>k<length ?rs. ?rs ! (ls ! n) \<le> ?rs ! k" and b: "ls ! n < length ?rs"
      by auto
    from rng0 len0 n' have "ls0 ! n < nrows C" by (simp add: list_all_iff)
    with le b have "euclidean (rows X ! n) (rows C ! (ls ! n))
                  \<le> euclidean (rows X ! n) (rows C ! (ls0 ! n))"
      by (simp add: nrows_def)
    then show ?thesis by (simp add: euclidean_sqdist)
  qed
  then have "sum_list (map (\<lambda>(x, l). sqdist x (rows C ! l)) (zip (rows X) ls))
           \<le> sum_list (map (\<lambda>(x, l). sqdist x (rows C ! l)) (zip (rows X) ls0))"
    by (intro sum_list_zip_mono) (use len len0 in \<open>simp_all add: nrows_def\<close>)
  with a b show ?thesis by blast
qed

section \<open>Lemmas for an arbitrary arithmetic\<close>



















lemma fit_loop_in_numeral [simp]:
  "fit_loop_in ar (numeral n) self X = fit_loop_in ar (Suc (pred_numeral n)) self X"
  by (simp add: numeral_eq_Suc)

lemma converged_within_in_numeral [simp]:
  "converged_within_in ar (numeral n) self X
     = converged_within_in ar (Suc (pred_numeral n)) self X"
  by (simp add: numeral_eq_Suc)






section \<open>Properties\<close>

text \<open>
  C1, as the code has it. \<^verbatim>\<open>fit\<close> validates nothing itself. When K is negative or
  exceeds the number of points, the sampling call raises ValueError before
  \<^verbatim>\<open>self.centroids\<close> is assigned and before the loop: the call ends in that error and
  the engine (centroids and labels included) is as it was. K = 0 and M \<le> 0 are not
  rejected.
\<close>

theorem fit_rejects_bad_cluster_count:
  assumes "n_clusters self < 0 \<or> int (nrows X) < n_clusters self"
  shows "fst (fit rs self X g) = Inl ValueError \<and> fst (snd (fit rs self X g)) = self"
proof (cases "seed_if_set rs (random_state self) g")
  case (Pair r g1)
  show ?thesis
  proof (cases r)
    case (Inl err)
    with Pair have "err = ValueError"
      by (cases "random_state self") (auto simp: seed_def split: if_splits)
    with Pair Inl show ?thesis by (simp add: fit_def)
  next
    case (Inr u)
    from assms have "choice rs (nrows X) (n_clusters self) g1 = (Inl ValueError, g1)"
      by (auto simp: choice_def)
    with Pair Inr show ?thesis by (simp add: fit_def)
  qed
qed

theorem fit_rejects_bad_cluster_count_witness:
  "(n_clusters (init 3 300 (Some 42)) < 0
      \<or> int (nrows two_equal_points) < n_clusters (init 3 300 (Some 42)))
   \<and> fst (fit counter_source (init 3 300 (Some 42)) two_equal_points 0) = Inl ValueError
   \<and> fst (snd (fit counter_source (init 3 300 (Some 42)) two_equal_points 0))
       = init 3 300 (Some 42)"
  using fit_rejects_bad_cluster_count [of "init 3 300 (Some 42)" two_equal_points counter_source 0]
  by (simp add: init_def nrows_def two_equal_points_def)

text \<open>
  C1 as stated fails for M \<le> 0 and for K = 0. With K = 1, M = 0 and one point,
  \<^verbatim>\<open>fit\<close> returns without an error and has replaced the centroids. With K = 0 and
  M = 300 the sampling call returns no index, the centroids are replaced by an array
  without rows, and only the arg-min of the first iteration raises.
\<close>

theorem fit_accepts_invalid_configurations:
  "fit counter_source (init 1 0 None) one_point 0
     = (Inr (),
        \<lparr>n_clusters = 1, max_iter = 0, random_state = None,
         centroids = Some \<lparr>ncols = 1, rows = [[Fin 0]]\<rparr>, labels = None\<rparr>,
        1)
   \<and> fit counter_source (init 0 300 None) one_point 0
     = (Inl ValueError,
        \<lparr>n_clusters = 0, max_iter = 300, random_state = None,
         centroids = Some \<lparr>ncols = 1, rows = []\<rparr>, labels = None\<rparr>,
        1)"
proof
  show "fit counter_source (init 1 0 None) one_point 0
     = (Inr (),
        \<lparr>n_clusters = 1, max_iter = 0, random_state = None,
         centroids = Some \<lparr>ncols = 1, rows = [[Fin 0]]\<rparr>, labels = None\<rparr>,
        1)"
    by (rule fit_steps [where u = "()" and ?g1.0 = 0 and initial_indices = "[0]"
          and C = one_point])
       (simp_all add: run_simps)
  show "fit counter_source (init 0 300 None) one_point 0
     = (Inl ValueError,
        \<lparr>n_clusters = 0, max_iter = 300, random_state = None,
         centroids = Some \<lparr>ncols = 1, rows = []\<rparr>, labels = None\<rparr>,
        1)"
    by (rule fit_steps [where u = "()" and ?g1.0 = 0 and initial_indices = "[]"
          and C = "\<lparr>ncols = 1, rows = []\<rparr>"])
       (simp_all add: run_simps)
qed

text \<open>
  C2 on the code. Two equal points and K = 2: both sampled centroids coincide, the first
  takes both points and the second none. \<^verbatim>\<open>_update_centroids\<close> takes the mean of the
  empty selection, which is not-a-number (lemma \<open>update_centroids_empty_cluster\<close>);
  no exception is raised, the loop goes on and \<^verbatim>\<open>fit\<close> returns normally with a
  not-a-number centroid.
\<close>

theorem empty_cluster_no_error:
  "fit counter_source (init 2 2 None) two_equal_points 0
     = (Inr (),
        \<lparr>n_clusters = 2, max_iter = 2, random_state = None,
         centroids = Some \<lparr>ncols = 1, rows = [[NaN], [Fin 0]]\<rparr>,
         labels = Some [1, 1]\<rparr>,
        1)"
  by (rule fit_steps [where u = "()" and ?g1.0 = 0 and initial_indices = "[0, 1]"
        and C = two_equal_points])
     (simp_all add: run_simps)

text \<open>
  C3, as the code has it. \<^verbatim>\<open>predict\<close> has no check of its own. On an engine whose
  centroids are still None (no \<^verbatim>\<open>fit\<close> so far), a point set with at least one point
  makes the subtraction raise TypeError.
\<close>

theorem predict_before_fit_raises:
  assumes "centroids self = None" and "0 < nrows X"
  shows "predict self X = (Inl TypeError, self)"
  using assms by (simp add: predict_def assign_labels_def)

theorem predict_before_fit_raises_witness:
  "centroids (init 3 300 None) = None \<and> 0 < nrows one_point
   \<and> predict (init 3 300 None) one_point = (Inl TypeError, init 3 300 None)"
  using predict_before_fit_raises [of "init 3 300 None" one_point]
  by (simp add: init_def nrows_def one_point_def)

text \<open>
  C3 as stated fails on a point set without points: nothing is subtracted, and
  \<^verbatim>\<open>predict\<close> returns an empty label array instead of raising.
\<close>

theorem predict_before_fit_no_points:
  "centroids (init 3 300 None) = None
   \<and> predict (init 3 300 None) no_points = (Inr [], init 3 300 None)"
  by (simp add: run_simps no_points_def)

text \<open>
  C4, as the code has it. When the loop of \<^verbatim>\<open>fit\<close> is left through the convergence
  check, the centroids are the ones the stored labels were computed from, and
  \<^verbatim>\<open>predict\<close> on the training points returns exactly the stored labels.
\<close>

theorem predict_reproduces_labels_when_converged:
  assumes "fit_converged rs self X g"
  shows "\<exists>self' g' ls. fit rs self X g = (Inr (), self', g') \<and> labels self' = Some ls
           \<and> predict self' X = (Inr ls, self')"
proof -
  obtain r g1 where s: "seed_if_set rs (random_state self) g = (r, g1)" by force
  with assms obtain u where u: "r = Inr u"
    by (cases r) (auto simp: fit_converged_def)
  obtain c g2 where c: "choice rs (nrows X) (n_clusters self) g1 = (c, g2)" by force
  with assms s u obtain idx where idx: "c = Inr idx"
    by (cases c) (auto simp: fit_converged_def)
  from assms s u c idx obtain C where C: "take_rows X idx = Inr C"
    by (cases "take_rows X idx") (auto simp: fit_converged_def)
  from assms s u c idx C
  have "converged_within (nat (max_iter self)) (self\<lparr>centroids := Some C\<rparr>) X"
    by (simp add: fit_converged_def)
  from converged_within_predict [OF this]
  obtain self' ls where l: "fit_loop (nat (max_iter self)) (self\<lparr>centroids := Some C\<rparr>) X
      = (Inr (), self')" "labels self' = Some ls" "assign_labels self' X = Inr ls"
    by blast
  from s u c idx C l(1) have "fit rs self X g = (Inr (), self', g2)"
    by (simp add: fit_def)
  with l show ?thesis by (simp add: predict_def)
qed

theorem predict_reproduces_labels_when_converged_witness:
  "fit_converged counter_source (init 2 10 None) five_points 0
   \<and> (\<exists>self' g' ls. fit counter_source (init 2 10 None) five_points 0 = (Inr (), self', g')
          \<and> labels self' = Some ls \<and> predict self' five_points = (Inr ls, self'))"
proof -
  have "fit_converged counter_source (init 2 10 None) five_points 0
      = converged_within (nat (max_iter (init 2 10 None)))
          ((init 2 10 None)\<lparr>centroids := Some \<lparr>ncols = 1, rows = [[Fin 0], [Fin 1]]\<rparr>\<rparr>) five_points"
    by (rule fit_converged_steps [where u = "()" and ?g1.0 = 0 and initial_indices = "[0, 1]"
          and ?g2.0 = 1])
       (simp_all add: run_simps)
  also have "\<dots>" by (simp add: run_simps)
  finally have h: "fit_converged counter_source (init 2 10 None) five_points 0" .
  from predict_reproduces_labels_when_converged [OF h] h show ?thesis by blast
qed

text \<open>
  C4 as stated fails when the iteration budget runs out first: the last iteration stores
  the updated centroids, while the labels are those of the centroids before. Five points
  on a line, K = 2, M = 1: the stored labels are 0,1,1,1,1 and \<^verbatim>\<open>predict\<close> returns
  0,0,0,1,1.
\<close>

theorem predict_differs_from_stale_labels:
  "fit counter_source (init 2 1 None) five_points 0
     = (Inr (),
        \<lparr>n_clusters = 2, max_iter = 1, random_state = None,
         centroids = Some \<lparr>ncols = 1, rows = [[Fin 0], [Fin 4]]\<rparr>,
         labels = Some [0, 1, 1, 1, 1]\<rparr>,
        1)
   \<and> fst (predict
        \<lparr>n_clusters = 2, max_iter = 1, random_state = None,
         centroids = Some \<lparr>ncols = 1, rows = [[Fin 0], [Fin 4]]\<rparr>,
         labels = Some [0, 1, 1, 1, 1]\<rparr> five_points)
     = Inr [0, 0, 0, 1, 1]"
proof
  show "fit counter_source (init 2 1 None) five_points 0
     = (Inr (),
        \<lparr>n_clusters = 2, max_iter = 1, random_state = None,
         centroids = Some \<lparr>ncols = 1, rows = [[Fin 0], [Fin 4]]\<rparr>,
         labels = Some [0, 1, 1, 1, 1]\<rparr>,
        1)"
    by (rule fit_steps [where u = "()" and ?g1.0 = 0 and initial_indices = "[0, 1]"
          and C = "\<lparr>ncols = 1, rows = [[Fin 0], [Fin 1]]\<rparr>"])
       (simp_all add: run_simps)
  show "fst (predict
        \<lparr>n_clusters = 2, max_iter = 1, random_state = None,
         centroids = Some \<lparr>ncols = 1, rows = [[Fin 0], [Fin 4]]\<rparr>,
         labels = Some [0, 1, 1, 1, 1]\<rparr> five_points)
     = Inr [0, 0, 0, 1, 1]"
    by (simp add: run_simps)
qed

text \<open>
  C5 on the code. Three points 0, 0, 10 and K = 3: the sampled centroids are the three
  points, the second of the two equal centroids gets no point, and its recomputed position
  is not-a-number. In the second iteration the arg-min picks that centroid for every
  point, the sum after the assignment step is not-a-number, and after the second update
  step it is 200/3, above the 0 it was after the first. (As long as the centroids are
  numbers neither step increases the sum: lemmas \<open>update_step_inertia\<close> and
  \<open>assignment_step_inertia\<close>.)
\<close>

theorem inertia_increases_after_empty_cluster:
  "fit counter_source (init 3 2 None) three_points 0
     = (Inr (),
        \<lparr>n_clusters = 3, max_iter = 2, random_state = None,
         centroids = Some \<lparr>ncols = 1, rows = [[NaN], [Fin (10 / 3)], [NaN]]\<rparr>,
         labels = Some [1, 1, 1]\<rparr>,
        1)
   \<and> inertia_trace 2 ((init 3 2 None)\<lparr>centroids := Some three_points\<rparr>) three_points
     = [(Fin 0, Fin 0), (NaN, Fin (200 / 3))]"
proof
  show "fit counter_source (init 3 2 None) three_points 0
     = (Inr (),
        \<lparr>n_clusters = 3, max_iter = 2, random_state = None,
         centroids = Some \<lparr>ncols = 1, rows = [[NaN], [Fin (10 / 3)], [NaN]]\<rparr>,
         labels = Some [1, 1, 1]\<rparr>,
        1)"
    by (rule fit_steps [where u = "()" and ?g1.0 = 0 and initial_indices = "[0, 1, 2]"
          and C = three_points])
       (simp_all add: run_simps)
  show "inertia_trace 2 ((init 3 2 None)\<lparr>centroids := Some three_points\<rparr>) three_points
     = [(Fin 0, Fin 0), (NaN, Fin (200 / 3))]"
    by (simp add: run_simps inertia_def)
qed







text \<open>
  C8. With a valid configuration (1 \<le> K \<le> N, M \<ge> 1, a seed numpy accepts if one is set)
  \<^verbatim>\<open>fit\<close> returns without an exception, and the stored labels are one label per
  point, each a centroid index below K. The iteration budget M is arbitrary here, so the
  same holds for the labels stored after the first, second, ... assignment step of a
  longer run: they are the labels a run with that smaller budget ends with.
\<close>

theorem fit_labels_in_range:
  assumes src: "valid_source rs" and sd: "seed_accepted self"
    and k1: "1 \<le> n_clusters self" and kn: "n_clusters self \<le> int (nrows X)"
    and m1: "1 \<le> max_iter self"
  shows "\<exists>self' g' ls. fit rs self X g = (Inr (), self', g')
           \<and> labels self' = Some ls \<and> length ls = nrows X
           \<and> list_all (\<lambda>l. int l < n_clusters self) ls"
proof -
  from seed_if_set_accepted [OF sd, of rs g]
  obtain g1 where g1: "seed_if_set rs (random_state self) g = (Inr (), g1)" by blast
  from choice_valid [OF src _ kn, of g1] k1
  obtain idx g2 where idx: "choice rs (nrows X) (n_clusters self) g1 = (Inr idx, g2)"
    "length idx = nat (n_clusters self)" "list_all (\<lambda>i. i < nrows X) idx"
    by auto
  let ?C = "\<lparr>ncols = ncols X, rows = map (\<lambda>i. rows X ! i) idx\<rparr>"
  let ?e = "self\<lparr>centroids := Some ?C\<rparr>"
  have tr: "take_rows X idx = Inr ?C" by (rule take_rows_valid [OF idx(3)])
  have "\<exists>self'. fit_loop (nat (max_iter self)) ?e X = (Inr (), self')
           \<and> (nat (max_iter self) = 0 \<longrightarrow> self' = ?e)
           \<and> (0 < nat (max_iter self) \<longrightarrow> (\<exists>ls. labels self' = Some ls \<and> length ls = nrows X
                              \<and> list_all (\<lambda>l. l < nat (n_clusters ?e)) ls))"
  proof (rule fit_loop_labels)
    show "centroids ?e = Some ?C" by simp
    show "ncols ?C = ncols X" by simp
    show "nrows ?C = nat (n_clusters ?e)" using idx(2) by (simp add: nrows_def)
    show "0 < n_clusters ?e" using k1 by simp
  qed
  with m1 obtain self' ls where r: "fit_loop (nat (max_iter self)) ?e X = (Inr (), self')"
    "labels self' = Some ls" "length ls = nrows X" "list_all (\<lambda>l. l < nat (n_clusters self)) ls"
    by auto
  from r(4) k1 have "list_all (\<lambda>l. int l < n_clusters self) ls"
    by (auto simp: list_all_iff)
  moreover have "fit rs self X g = (Inr (), self', g2)"
    by (rule fit_steps [OF g1 idx(1) tr r(1)])
  ultimately show ?thesis using r by blast
qed

theorem fit_labels_in_range_witness:
  "valid_source counter_source \<and> seed_accepted (init 2 1 None)
   \<and> 1 \<le> n_clusters (init 2 1 None) \<and> n_clusters (init 2 1 None) \<le> int (nrows five_points)
   \<and> 1 \<le> max_iter (init 2 1 None)
   \<and> (\<exists>self' g' ls. fit counter_source (init 2 1 None) five_points 0 = (Inr (), self', g')
           \<and> labels self' = Some ls \<and> length ls = nrows five_points
           \<and> list_all (\<lambda>l. int l < n_clusters (init 2 1 None)) ls)"
proof -
  have h: "seed_accepted (init 2 1 None)" "1 \<le> n_clusters (init 2 1 None)"
    "n_clusters (init 2 1 None) \<le> int (nrows five_points)" "1 \<le> max_iter (init 2 1 None)"
    by (simp_all add: seed_accepted_def init_def nrows_def five_points_def)
  from fit_labels_in_range [OF valid_counter_source h, of 0] valid_counter_source h
  show ?thesis by blast
qed

text \<open>
  C9 on the code. The seed is applied under \<^verbatim>\<open>if self.random_state:\<close>, which is false
  for the seed 0. An engine configured with \<^verbatim>\<open>random_state=0\<close> therefore samples from
  the generator as it finds it: started from two different generator states, two runs on
  the same two points pick the initial indices in different orders and end with different
  centroids and labels. (For a seed other than 0 the outcome does not depend on the
  generator state: lemma \<open>fit_seeded_reproducible\<close>.)
\<close>

theorem seed_zero_not_applied:
  "fit counter_source (init 2 300 (Some 0)) two_points 0
     = (Inr (),
        \<lparr>n_clusters = 2, max_iter = 300, random_state = Some 0,
         centroids = Some \<lparr>ncols = 1, rows = [[Fin 0], [Fin 5]]\<rparr>,
         labels = Some [0, 1]\<rparr>,
        1)
   \<and> fit counter_source (init 2 300 (Some 0)) two_points 1
     = (Inr (),
        \<lparr>n_clusters = 2, max_iter = 300, random_state = Some 0,
         centroids = Some \<lparr>ncols = 1, rows = [[Fin 5], [Fin 0]]\<rparr>,
         labels = Some [1, 0]\<rparr>,
        2)"
proof
  show "fit counter_source (init 2 300 (Some 0)) two_points 0
     = (Inr (),
        \<lparr>n_clusters = 2, max_iter = 300, random_state = Some 0,
         centroids = Some \<lparr>ncols = 1, rows = [[Fin 0], [Fin 5]]\<rparr>,
         labels = Some [0, 1]\<rparr>,
        1)"
    by (rule fit_steps [where u = "()" and ?g1.0 = 0 and initial_indices = "[0, 1]"
          and C = two_points])
       (simp_all add: run_simps two_points_def)
  show "fit counter_source (init 2 300 (Some 0)) two_points 1
     = (Inr (),
        \<lparr>n_clusters = 2, max_iter = 300, random_state = Some 0,
         centroids = Some \<lparr>ncols = 1, rows = [[Fin 5], [Fin 0]]\<rparr>,
         labels = Some [1, 0]\<rparr>,
        2)"
    by (rule fit_steps [where u = "()" and ?g1.0 = 1 and initial_indices = "[1, 0]"
          and C = "\<lparr>ncols = 1, rows = [[Fin 5], [Fin 0]]\<rparr>"])
       (simp_all add: run_simps two_points_def)
qed

text \<open>
  C10. Calling \<^verbatim>\<open>predict\<close> leaves the engine unchanged: centroids, labels and the
  configuration are the same after the call as before, whatever the point set and whether
  or not the call raised.
\<close>

theorem predict_frame: "snd (predict self X) = self"
  by (simp add: predict_def)

end
